theory Spec2Isabelle
  imports Main
begin

section \<open>Python primitives used by the companion AI\<close>

text \<open>
  Python strings are modelled as \<^typ>\<open>string\<close>; a \<^typ>\<open>char\<close> stands for one code point
  in the range 0..255.  Exceptions are values of \<open>exn\<close>; a computation that may raise
  returns \<open>exn + 'a\<close> with \<open>Inl\<close> for the exception.
\<close>

datatype exn = IndexError | ResponderError

text \<open>\<open>str.isspace\<close> on one code point below 256 (also the class \<open>\s\<close> of \<open>re\<close>).\<close>

definition isspace :: "char \<Rightarrow> bool" where
  "isspace c = (let n = (of_char c :: nat) in
     (9 \<le> n \<and> n \<le> 13) \<or> (28 \<le> n \<and> n \<le> 32) \<or> n = 133 \<or> n = 160)"

text \<open>\<open>str.strip()\<close>: leading and trailing whitespace removed.\<close>

definition strip :: "string \<Rightarrow> string" where
  "strip s = rev (dropWhile isspace (rev (dropWhile isspace s)))"

text \<open>\<open>xs[i:]\<close> with Python's reading of a negative start.\<close>

definition py_slice_from :: "int \<Rightarrow> 'a list \<Rightarrow> 'a list" where
  "py_slice_from i xs =
     (if i < 0 then drop (nat (max 0 (int (length xs) + i))) xs else drop (nat i) xs)"

text \<open>
  \<open>random.choice(xs)\<close>; \<open>rnd\<close> is the draw of the generator.  Every list the source
  draws from is a literal with at least two entries.
\<close>

definition choice :: "nat \<Rightarrow> 'a list \<Rightarrow> 'a" where
  "choice rnd xs = xs ! (rnd mod length xs)"

section \<open>Configuration (config.py)\<close>

definition MAX_CONVERSATION_HISTORY :: int where
  "MAX_CONVERSATION_HISTORY = 10"

definition WAKE_WORDS :: "string list" where
  "WAKE_WORDS = [''hey haro'', ''haro'', ''ai'']"

definition AI_NAME :: string where
  "AI_NAME = ''Haro''"

definition AI_PERSONALITY :: string where
  "AI_PERSONALITY =
     ''You are Haro, a helpful and friendly AI assistant. You are:'' @ [CHR 0x0A] @
     ''    - Conversational and engaging'' @ [CHR 0x0A] @
     ''    - Supportive and encouraging'' @ [CHR 0x0A] @
     ''    - Curious about the user's day and interests'' @ [CHR 0x0A] @
     ''    - Able to help with various tasks and questions'' @ [CHR 0x0A] @
     ''    - Designed to be a loyal companion'' @ [CHR 0x0A] @
     ''    Keep responses concise but warm, as they will be spoken aloud.''"

section \<open>Conversation session (ai_brain.py, local_ai_brain.py)\<close>

text \<open>A history entry is the dict \<open>{"role": ..., "content": ...}\<close>.\<close>

record message =
  role :: string
  content :: string

record brain =
  conversation_history :: "message list"
  user_context :: "string \<rightharpoonup> string"

text \<open>The two classes differ in the system prompt and in how a response is generated.\<close>

datatype brain_kind = Remote | Local

definition system_content :: "brain_kind \<Rightarrow> string" where
  "system_content k = (case k of
      Remote \<Rightarrow> AI_PERSONALITY
    | Local \<Rightarrow> ''You are '' @ AI_NAME @ '', a helpful AI assistant running locally.'')"

definition initialize_conversation :: "brain_kind \<Rightarrow> brain \<Rightarrow> brain" where
  "initialize_conversation k s =
     s\<lparr>conversation_history :=
         conversation_history s @ [\<lparr>role = ''system'', content = system_content k\<rparr>]\<rparr>"

text \<open>\<open>__init__\<close>: empty history and context, then the system prompt.\<close>

definition init_brain :: "brain_kind \<Rightarrow> brain" where
  "init_brain k =
     initialize_conversation k \<lparr>conversation_history = [], user_context = Map.empty\<rparr>"

text \<open>
  \<open>_manage_conversation_history\<close>, with \<open>B\<close> the value of
  \<open>Config.MAX_CONVERSATION_HISTORY\<close>.  \<open>h[0]\<close> raises on an empty list.
\<close>

definition manage_conversation_history :: "int \<Rightarrow> message list \<Rightarrow> exn + message list" where
  "manage_conversation_history B h =
     (let max_messages = (B * 2) + 1 in
      if int (length h) > max_messages then
        (case h of
           [] \<Rightarrow> Inl IndexError
         | system_msg # _ \<Rightarrow>
             (let recent_messages = py_slice_from (- (max_messages - 1)) h
              in Inr ([system_msg] @ recent_messages)))
      else Inr h)"

definition error_responses :: "string list" where
  "error_responses =
     [''I'm sorry, I'm having trouble understanding right now. Could you try again?'',
      ''I seem to be experiencing some technical difficulties. Please give me a moment.'',
      ''I'm not quite sure how to respond to that. Could you rephrase your question?'']"

definition get_error_response :: "nat \<Rightarrow> string" where
  "get_error_response rnd = choice rnd error_responses"

text \<open>
  \<open>process_input\<close>.  \<open>generated\<close> is the outcome of the generation step of this call
  (\<open>_generate_response()\<close> or \<open>_generate_local_response(user_input)\<close>): the response, or
  the exception it raised.  Every exception raised inside the \<open>try\<close> block ends in the
  handler, which returns a fallback response; the appends made before it stay.
\<close>

definition process_input :: "int \<Rightarrow> exn + string \<Rightarrow> nat \<Rightarrow> string \<Rightarrow> brain \<Rightarrow> string \<times> brain" where
  "process_input B generated rnd user_input s =
     (let user_message = \<lparr>role = ''user'', content = user_input\<rparr>;
          h1 = conversation_history s @ [user_message]
      in case generated of
           Inl e \<Rightarrow> (get_error_response rnd, s\<lparr>conversation_history := h1\<rparr>)
         | Inr response \<Rightarrow>
             (let ai_message = \<lparr>role = ''assistant'', content = response\<rparr>;
                  h2 = h1 @ [ai_message]
              in case manage_conversation_history B h2 of
                   Inl e \<Rightarrow> (get_error_response rnd, s\<lparr>conversation_history := h2\<rparr>)
                 | Inr h3 \<Rightarrow> (response, s\<lparr>conversation_history := h3\<rparr>)))"

text \<open>
  \<open>AIBrain._generate_response\<close>: the completion endpoint answers with a text or fails;
  the text is stripped.
\<close>

definition generate_response :: "exn + string \<Rightarrow> exn + string" where
  "generate_response endpoint = (case endpoint of Inl e \<Rightarrow> Inl e | Inr txt \<Rightarrow> Inr (strip txt))"

text \<open>\<open>get_conversation_summary()["total_exchanges"]\<close>; \<open>//\<close> is floor division.\<close>

definition total_exchanges :: "brain \<Rightarrow> int" where
  "total_exchanges s = (int (length (conversation_history s)) - 1) div 2"

definition history_length :: "brain \<Rightarrow> int" where
  "history_length s = int (length (conversation_history s))"

definition reset_conversation :: "brain_kind \<Rightarrow> brain \<Rightarrow> brain" where
  "reset_conversation k s = initialize_conversation k (s\<lparr>conversation_history := []\<rparr>)"

definition set_user_context :: "string \<Rightarrow> string \<Rightarrow> brain \<Rightarrow> brain" where
  "set_user_context key val s = s\<lparr>user_context := (user_context s)(key \<mapsto> val)\<rparr>"

definition get_user_context :: "string \<Rightarrow> brain \<Rightarrow> string option" where
  "get_user_context key s = user_context s key"

text \<open>A sequence of \<open>process_input\<close> calls: each with its generation outcome, draw and input.\<close>

fun run_calls :: "int \<Rightarrow> ((exn + string) \<times> nat \<times> string) list \<Rightarrow> brain \<Rightarrow> brain" where
  "run_calls B [] s = s"
| "run_calls B ((g, rnd, u) # cs) s = run_calls B cs (snd (process_input B g rnd u s))"

definition count_role :: "string \<Rightarrow> message list \<Rightarrow> nat" where
  "count_role r h = length (filter (\<lambda>m. role m = r) h)"


section \<open>Properties of a history, as the specification words them\<close>

text \<open>\<open>count(User) + count(Assistant)\<close>.\<close>

definition ua_count :: "message list \<Rightarrow> nat" where
  "ua_count h = count_role ''user'' h + count_role ''assistant'' h"



text \<open>A call whose generation step returns \<open>r\<close>, and one whose generation step raises.\<close>

definition ok_call :: "string \<Rightarrow> string \<Rightarrow> (exn + string) \<times> nat \<times> string" where
  "ok_call u r = (Inr r, 0, u)"

definition failed_call :: "string \<Rightarrow> (exn + string) \<times> nat \<times> string" where
  "failed_call u = (Inl ResponderError, 0, u)"

definition is_failed :: "(exn + string) \<times> nat \<times> string \<Rightarrow> bool" where
  "is_failed c = (case fst c of Inl e \<Rightarrow> True | Inr r \<Rightarrow> False)"

text \<open>The number of failed calls at the end of a sequence of calls.\<close>

definition trailing_failures :: "((exn + string) \<times> nat \<times> string) list \<Rightarrow> nat" where
  "trailing_failures cs = length (takeWhile is_failed (rev cs))"

text \<open>The history starts with the system turn of the session and holds no other one.\<close>

definition sys_headed :: "brain_kind \<Rightarrow> message list \<Rightarrow> bool" where
  "sys_headed k h = (\<exists>p. h = \<lparr>role = ''system'', content = system_content k\<rparr> # p
                        \<and> (\<forall>m \<in> set p. role m \<noteq> ''system''))"

section \<open>String operations of Python\<close>

text \<open>\<open>str.lower()\<close> on code points below 256: A-Z and the upper-case letters of Latin-1.\<close>

definition lower_char :: "char \<Rightarrow> char" where
  "lower_char c = (let n = (of_char c :: nat) in
     if (65 \<le> n \<and> n \<le> 90) \<or> (192 \<le> n \<and> n \<le> 222 \<and> n \<noteq> 215)
     then char_of (n + 32) else c)"

definition lower :: "string \<Rightarrow> string" where
  "lower s = map lower_char s"

text \<open>\<open>w in text\<close> for strings: \<open>w\<close> occurs in \<open>text\<close> as a contiguous substring.\<close>

fun contains :: "string \<Rightarrow> string \<Rightarrow> bool" where
  "contains w [] = (w = [])"
| "contains w (c # cs) = (take (length w) (c # cs) = w \<or> contains w cs)"

text \<open>\<open>any(word in text for word in words)\<close>.\<close>

definition any_in :: "string list \<Rightarrow> string \<Rightarrow> bool" where
  "any_in words text = list_ex (\<lambda>word. contains word text) words"

text \<open>
  \<open>text.replace(old, new)\<close>: every occurrence of \<open>old\<close>, found from the left and not
  overlapping, is replaced; an empty \<open>old\<close> matches before every character and at the end.
\<close>

function replace :: "string \<Rightarrow> string \<Rightarrow> string \<Rightarrow> string" where
  "replace old new [] = (if old = [] then new else [])"
| "replace old new (c # cs) =
     (if old = [] then new @ c # replace old new cs
      else if take (length old) (c # cs) = old
           then new @ replace old new (drop (length old) (c # cs))
           else c # replace old new cs)"
  by pat_completeness auto
termination
  by (relation "measure (\<lambda>(old, new, s). length s)") auto

section \<open>Wake words (voice_handler.py)\<close>

datatype recognition_error = UnknownValueError | RequestError | OtherError

text \<open>\<open>_contains_wake_word\<close> and \<open>_remove_wake_words\<close>, with the list \<open>Config.WAKE_WORDS\<close>.\<close>

definition contains_wake_word :: "string list \<Rightarrow> string \<Rightarrow> bool" where
  "contains_wake_word wake_words text = any_in wake_words text"

fun remove_wake_words :: "string list \<Rightarrow> string \<Rightarrow> string" where
  "remove_wake_words [] text = text"
| "remove_wake_words (wake_word # rest) text =
     remove_wake_words rest (strip (replace wake_word [] text))"

definition acknowledgement :: string where
  "acknowledgement = ''Hello! How can I help you?''"

text \<open>
  \<open>_process_audio\<close>.  \<open>recognized\<close> is the outcome of \<open>recognize_google(audio)\<close>.  The
  result is the argument with which \<open>on_speech_detected\<close> is called, or \<open>None\<close> when the
  callback is not called.
\<close>

definition process_audio :: "string list \<Rightarrow> recognition_error + string \<Rightarrow> string option" where
  "process_audio wake_words recognized =
     (case recognized of
        Inl e \<Rightarrow> None
      | Inr text \<Rightarrow>
          if contains_wake_word wake_words (lower text) then
            (let cleaned_text = strip (remove_wake_words wake_words (lower text))
             in if cleaned_text \<noteq> [] then Some cleaned_text else Some acknowledgement)
          else None)"

section \<open>Local responder (local_ai_brain.py)\<close>

text \<open>
  The time and date responses are built once, when the knowledge base is loaded, from
  the clock; \<open>loaded_at\<close> holds the four formatted strings.
\<close>

record loaded_at =
  time_24 :: string
  time_12 :: string
  date_long :: string
  date_short :: string

definition greeting_responses :: "string list" where
  "greeting_responses =
     [''Hello! Great to see you again!'',
      ''Hi there! How can I help you today?'',
      ''Hey! What's on your mind?'',
      ''Good to see you! What would you like to talk about?'']"

definition goodbye_responses :: "string list" where
  "goodbye_responses =
     [''Goodbye! It was great talking with you!'',
      ''See you later! Have a wonderful day!'',
      ''Take care! I'll be here when you need me.'',
      ''Until next time! Stay safe!'']"

definition thanks_responses :: "string list" where
  "thanks_responses =
     [''You're very welcome!'',
      ''Happy to help!'',
      ''My pleasure!'',
      ''Anytime! That's what I'm here for.'']"

definition unknown_responses :: "string list" where
  "unknown_responses =
     [''That's an interesting question! I'm still learning about that topic.'',
      ''I don't have specific information about that right now, but I'd love to help in other ways!'',
      ''Hmm, that's not in my current knowledge base. Is there something else I can help you with?'',
      ''I'm not sure about that particular topic, but I'm always eager to learn! What else can I assist you with?'']"

definition time_responses :: "loaded_at \<Rightarrow> string list" where
  "time_responses t =
     [''The current time is '' @ time_24 t,
      ''It's '' @ time_12 t @ '' right now'']"

definition date_responses :: "loaded_at \<Rightarrow> string list" where
  "date_responses t =
     [''Today is '' @ date_long t,
      ''The date is '' @ date_short t]"

definition weather_responses :: "string list" where
  "weather_responses =
     [''I'd love to help with weather information, but I need internet connectivity for current conditions.'',
      ''For accurate weather data, I'd need to connect to a weather service.'']"

definition robot_responses :: "string list" where
  "robot_responses =
     [''I'm designed to be part of a robot companion! Right now I can talk, but in the future I could move around and interact with the physical world.'',
      ''My robot capabilities are currently in development. For now, I focus on being a great conversational companion!'']"

definition capabilities_responses :: "string list" where
  "capabilities_responses =
     [''I can have conversations, answer questions, help with basic calculations, tell you the time and date, and much more! What would you like help with?'',
      ''My main skills include conversation, basic information lookup, time/date queries, and being a friendly companion. How can I assist you today?'']"

definition purpose :: string where
  "purpose = ''I'm your personal AI assistant designed to help with daily tasks''"

definition self_introduction :: string where
  "self_introduction =
     ''I'm '' @ AI_NAME @ '', '' @ purpose @
     ''. I can help you with many things like answering questions, basic calculations, and friendly conversation!''"

subsection \<open>The math handler\<close>

text \<open>The character class \<open>[\d\.\+\-\*/\(\)\s]\<close> of the pattern, on code points below 256.\<close>

definition math_char :: "char \<Rightarrow> bool" where
  "math_char c = (let n = (of_char c :: nat) in
     (48 \<le> n \<and> n \<le> 57) \<or> c \<in> set ''.+-*/()'' \<or> isspace c)"

text \<open>
  \<open>re.search(math_pattern, user_input)\<close>: the match starts at the first character of
  the class and runs, greedily, to the last character of that run; there is no match
  when no character is in the class.
\<close>

definition re_search_math :: "string \<Rightarrow> string option" where
  "re_search_math user_input =
     (let from_first = dropWhile (\<lambda>c. \<not> math_char c) user_input
      in if from_first = [] then None else Some (takeWhile math_char from_first))"

definition allowed_chars :: "char set" where
  "allowed_chars = set ''0123456789+-*/.() ''"

definition math_help :: string where
  "math_help = ''I can help with basic math! Try asking me something like 'what is 15 plus 7' or '10 times 3'' @ [CHR 0x27]"

text \<open>
  \<open>_handle_math\<close>.  \<open>eval\<close> stands for Python's \<open>eval\<close> followed by the formatting of
  the result in the f-string: \<open>Some\<close> of the printed value, or \<open>None\<close> when either raises
  (the bare \<open>except\<close> then falls through to the help string).
\<close>

definition handle_math :: "(string \<Rightarrow> string option) \<Rightarrow> string \<Rightarrow> string" where
  "handle_math eval user_input =
     (case re_search_math user_input of
        Some m \<Rightarrow>
          (let expression = strip m
           in if list_all (\<lambda>c. c \<in> allowed_chars) expression then
                (case eval expression of
                   Some result \<Rightarrow> ''The answer is '' @ result
                 | None \<Rightarrow> math_help)
              else math_help)
      | None \<Rightarrow> math_help)"

subsection \<open>The rule chain\<close>

definition generate_local_response ::
  "loaded_at \<Rightarrow> (string \<Rightarrow> string option) \<Rightarrow> nat \<Rightarrow> string \<Rightarrow> string" where
  "generate_local_response t eval rnd user_input =
     (let user_input_lower = strip (lower user_input) in
      if any_in [''hello'', ''hi'', ''hey'', ''good morning'', ''good afternoon'', ''good evening'']
           user_input_lower
      then choice rnd greeting_responses
      else if any_in [''goodbye'', ''bye'', ''see you'', ''farewell'', ''quit'', ''exit'']
           user_input_lower
      then choice rnd goodbye_responses
      else if any_in [''thank'', ''thanks'', ''appreciate''] user_input_lower
      then choice rnd thanks_responses
      else if any_in [''time'', ''clock'', ''hour''] user_input_lower
      then choice rnd (time_responses t)
      else if any_in [''date'', ''day'', ''today'', ''calendar''] user_input_lower
      then choice rnd (date_responses t)
      else if any_in [''weather'', ''temperature'', ''rain'', ''sunny'', ''cloudy'']
           user_input_lower
      then choice rnd weather_responses
      else if any_in [''calculate'', ''math'', ''plus'', ''minus'', ''multiply'', ''divide'',
                      ''+'', ''-'', ''*'', ''/'', ''times''] user_input_lower
      then handle_math eval user_input
      else if any_in [''robot'', ''move'', ''walk'', ''drive''] user_input_lower
      then choice rnd robot_responses
      else if any_in [''can you'', ''what can'', ''help'', ''do'', ''abilities'', ''capabilities'']
           user_input_lower
      then choice rnd capabilities_responses
      else if any_in [''who are you'', ''what are you'', ''tell me about yourself'',
                      ''introduce yourself''] user_input_lower
      then self_introduction
      else choice rnd unknown_responses)"

subsection \<open>The classification as the specification words it\<close>

datatype category =
  Greeting | Goodbye | Thanks | TimeQuery | DateQuery | WeatherQuery | MathExpression
  | Robot | Capability | SelfIdentity | Unknown

text \<open>The categories in their priority order, each with its trigger words.\<close>

definition rules :: "(category \<times> string list) list" where
  "rules =
     [(Greeting, [''hello'', ''hi'', ''hey'', ''good morning'', ''good afternoon'', ''good evening'']),
      (Goodbye, [''goodbye'', ''bye'', ''see you'', ''farewell'', ''quit'', ''exit'']),
      (Thanks, [''thank'', ''thanks'', ''appreciate'']),
      (TimeQuery, [''time'', ''clock'', ''hour'']),
      (DateQuery, [''date'', ''day'', ''today'', ''calendar'']),
      (WeatherQuery, [''weather'', ''temperature'', ''rain'', ''sunny'', ''cloudy'']),
      (MathExpression, [''calculate'', ''math'', ''plus'', ''minus'', ''multiply'', ''divide'',
                        ''+'', ''-'', ''*'', ''/'', ''times'']),
      (Robot, [''robot'', ''move'', ''walk'', ''drive'']),
      (Capability, [''can you'', ''what can'', ''help'', ''do'', ''abilities'', ''capabilities'']),
      (SelfIdentity, [''who are you'', ''what are you'', ''tell me about yourself'',
                      ''introduce yourself''])]"

text \<open>First matching category wins; no match is \<open>Unknown\<close>.\<close>

fun first_match :: "(category \<times> string list) list \<Rightarrow> string \<Rightarrow> category" where
  "first_match [] text = Unknown"
| "first_match ((cat, words) # rest) text =
     (if any_in words text then cat else first_match rest text)"

definition classify :: "string \<Rightarrow> category" where
  "classify user_input = first_match rules (strip (lower user_input))"

text \<open>The fixed string pool of a category (none for math and self-identity).\<close>

fun pool :: "loaded_at \<Rightarrow> category \<Rightarrow> string list" where
  "pool t Greeting = greeting_responses"
| "pool t Goodbye = goodbye_responses"
| "pool t Thanks = thanks_responses"
| "pool t TimeQuery = time_responses t"
| "pool t DateQuery = date_responses t"
| "pool t WeatherQuery = weather_responses"
| "pool t Robot = robot_responses"
| "pool t Capability = capabilities_responses"
| "pool t Unknown = unknown_responses"
| "pool t MathExpression = []"
| "pool t SelfIdentity = []"

subsection \<open>The longest run, as the specification words the extraction\<close>

text \<open>The maximal runs of characters that satisfy \<open>P\<close>, from left to right.\<close>

fun runs :: "(char \<Rightarrow> bool) \<Rightarrow> string \<Rightarrow> string \<Rightarrow> string list" where
  "runs P cur [] = (if cur = [] then [] else [cur])"
| "runs P cur (c # cs) =
     (if P c then runs P (cur @ [c]) cs
      else (if cur = [] then [] else [cur]) @ runs P [] cs)"

text \<open>The longest of them (the first one of that length); empty when there is none.\<close>

definition longest_run :: "(char \<Rightarrow> bool) \<Rightarrow> string \<Rightarrow> string" where
  "longest_run P s =
     foldl (\<lambda>best r. if length best < length r then r else best) [] (runs P [] s)"

text \<open>The evaluator of the examples: it knows the values of the expressions listed.\<close>

definition eval_table :: "(string \<times> string) list \<Rightarrow> string \<Rightarrow> string option" where
  "eval_table tab expression = map_of tab expression"

text \<open>A knowledge base loaded on Monday, 1 January 2024, at 14:05.\<close>

definition example_load :: loaded_at where
  "example_load = \<lparr>time_24 = ''14:05 PM'', time_12 = ''02:05 PM'',
     date_long = ''Monday, January 01, 2024'', date_short = ''01/01/2024''\<rparr>"

section \<open>Speech output queue (speech_engine.py)\<close>

text \<open>
  The state of a \<open>SpeechEngine\<close>.  \<open>speech_queue\<close> holds the items of the
  \<open>queue.Queue\<close> (\<open>None\<close> is the shutdown signal) and \<open>unfinished_tasks\<close> its counter:
  \<open>put\<close> adds one, \<open>task_done\<close> takes one off, \<open>join\<close> waits until it is 0.
  \<open>in_flight\<close> is the text the worker took and has not yet marked done, \<open>rendered\<close>
  lists the texts handed to the synthesis engine, in order, and \<open>worker_alive\<close> tells
  whether the worker thread is still in its loop.
\<close>

record speech_engine =
  speech_queue :: "string option list"
  unfinished_tasks :: nat
  is_speaking :: bool
  is_running :: bool
  worker_alive :: bool
  in_flight :: "string option"
  rendered :: "string list"
  stop_requests :: nat

text \<open>After \<open>__init__\<close>: the queue is empty and the worker has been started.\<close>

definition init_engine :: speech_engine where
  "init_engine =
     \<lparr>speech_queue = [], unfinished_tasks = 0, is_speaking = False, is_running = True,
      worker_alive = True, in_flight = None, rendered = [], stop_requests = 0\<rparr>"

definition put :: "string option \<Rightarrow> speech_engine \<Rightarrow> speech_engine" where
  "put item e = e\<lparr>speech_queue := speech_queue e @ [item],
                   unfinished_tasks := unfinished_tasks e + 1\<rparr>"

text \<open>\<open>stop_speaking\<close>: the synthesis engine is told to stop when a text is being spoken.\<close>

definition stop_speaking :: "speech_engine \<Rightarrow> speech_engine" where
  "stop_speaking e = (if is_speaking e then e\<lparr>stop_requests := stop_requests e + 1\<rparr> else e)"

text \<open>The loop \<open>while not empty: get_nowait(); task_done()\<close>.\<close>

fun drain :: "string option list \<Rightarrow> nat \<Rightarrow> nat" where
  "drain [] n = n"
| "drain (item # q) n = drain q (n - 1)"

definition clear_queue :: "speech_engine \<Rightarrow> speech_engine" where
  "clear_queue e = e\<lparr>speech_queue := [],
                      unfinished_tasks := drain (speech_queue e) (unfinished_tasks e)\<rparr>"

definition speak :: "string \<Rightarrow> bool \<Rightarrow> speech_engine \<Rightarrow> speech_engine" where
  "speak text interrupt e =
     (if strip text = [] then e
      else put (Some text) (if interrupt then clear_queue (stop_speaking e) else e))"

text \<open>
  One step of the worker thread.  With a text in flight, the step is the end of
  \<open>_speak_now\<close> followed by \<open>task_done()\<close>.  Otherwise it is the start of a loop
  iteration: the loop ends when \<open>is_running\<close> is false; \<open>get\<close> on an empty queue times
  out and the loop goes on; the shutdown signal ends the loop, with no \<open>task_done()\<close>;
  a text is handed to the synthesis engine.
\<close>

definition worker_step :: "speech_engine \<Rightarrow> speech_engine" where
  "worker_step e =
     (if \<not> worker_alive e then e
      else case in_flight e of
        Some text \<Rightarrow>
          e\<lparr>in_flight := None, is_speaking := False,
            unfinished_tasks := unfinished_tasks e - 1\<rparr>
      | None \<Rightarrow>
          if \<not> is_running e then e\<lparr>worker_alive := False\<rparr>
          else (case speech_queue e of
                  [] \<Rightarrow> e
                | None # q \<Rightarrow> e\<lparr>speech_queue := q, worker_alive := False\<rparr>
                | Some text # q \<Rightarrow>
                    e\<lparr>speech_queue := q, in_flight := Some text, is_speaking := True,
                      rendered := rendered e @ [text]\<rparr>))"

definition is_busy :: "speech_engine \<Rightarrow> bool" where
  "is_busy e = (is_speaking e \<or> speech_queue e \<noteq> [])"

text \<open>\<open>shutdown\<close>: the flag is cleared, the queue emptied and the shutdown signal put.\<close>

definition shutdown :: "speech_engine \<Rightarrow> speech_engine" where
  "shutdown e = put None (clear_queue (e\<lparr>is_running := False\<rparr>))"

text \<open>
  What the threads do, one step at a time: a caller of \<open>speak\<close>, the worker, or a unit
  of time in which no thread completes a step.
\<close>

datatype event = Speak string bool | WorkerStep | Tick

fun step :: "event \<Rightarrow> speech_engine \<Rightarrow> speech_engine" where
  "step (Speak text interrupt) e = speak text interrupt e"
| "step WorkerStep e = worker_step e"
| "step Tick e = e"

fun run_events :: "event list \<Rightarrow> speech_engine \<Rightarrow> speech_engine" where
  "run_events [] e = e"
| "run_events (ev # evs) e = run_events evs (step ev e)"

text \<open>
  \<open>Queue.join()\<close>: the caller is blocked while the other threads take their steps, as
  the schedule \<open>sched\<close> lists them, until \<open>unfinished_tasks\<close> is 0.  The result is the
  number of steps that went by and the state then; \<open>None\<close> when the call never returns.
\<close>

partial_function (option) queue_join ::
  "(nat \<Rightarrow> event) \<Rightarrow> nat \<Rightarrow> speech_engine \<Rightarrow> (nat \<times> speech_engine) option" where
  "queue_join sched n e =
     (if unfinished_tasks e = 0 then Some (n, e)
      else queue_join sched (Suc n) (step (sched n) e))"

text \<open>
  \<open>wait_until_done(timeout)\<close>: \<open>join()\<close>, then \<open>True\<close>.  The result is the returned
  value with the number of steps the call took.
\<close>

definition wait_until_done ::
  "nat option \<Rightarrow> (nat \<Rightarrow> event) \<Rightarrow> speech_engine \<Rightarrow> (bool \<times> nat) option" where
  "wait_until_done timeout sched e =
     (case queue_join sched 0 e of
        None \<Rightarrow> None
      | Some (n, e') \<Rightarrow> Some (True, n))"

text \<open>Playback of the text in flight takes ten units of time; then the worker goes on.\<close>

definition slow_playback :: "nat \<Rightarrow> event" where
  "slow_playback n = (if n < 10 then Tick else WorkerStep)"

text \<open>The remaining work of the worker: two steps for each queued text, one for a text in flight.\<close>

definition work :: "speech_engine \<Rightarrow> nat" where
  "work e = 2 * length (speech_queue e) + (case in_flight e of None \<Rightarrow> 0 | Some text \<Rightarrow> 1)"

definition pending :: "speech_engine \<Rightarrow> string list" where
  "pending e = map the (speech_queue e)"

text \<open>The worker is in its loop and no shutdown has been asked for.\<close>

definition serving :: "speech_engine \<Rightarrow> bool" where
  "serving e = (worker_alive e \<and> is_running e \<and> None \<notin> set (speech_queue e))"

text \<open>\<open>xs\<close> is an initial part of \<open>ys\<close>.\<close>

definition starts :: "'a list \<Rightarrow> 'a list \<Rightarrow> bool" where
  "starts xs ys = (take (length xs) ys = xs)"

text \<open>A schedule in which only the worker takes steps.\<close>

definition worker_only :: "nat \<Rightarrow> event" where
  "worker_only n = WorkerStep"

section \<open>Turn orchestration (main.py)\<close>

record haro =
  ai_brain :: brain
  engine :: speech_engine

text \<open>
  The generation step of a brain, given the history with the new user turn and the
  input: the remote brain asks the completion endpoint, the local one its rules.
\<close>

definition remote_responder ::
  "(message list \<Rightarrow> exn + string) \<Rightarrow> message list \<Rightarrow> string \<Rightarrow> exn + string" where
  "remote_responder endpoint h user_input = generate_response (endpoint h)"

definition local_responder ::
  "loaded_at \<Rightarrow> (string \<Rightarrow> string option) \<Rightarrow> nat \<Rightarrow> message list \<Rightarrow> string \<Rightarrow> exn + string" where
  "local_responder t eval rnd h user_input = Inr (generate_local_response t eval rnd user_input)"

text \<open>
  The call \<open>self.ai_brain.process_input(text)\<close>: the brain appends the user turn, runs
  its generation step on the history and the input, and goes on as \<open>process_input\<close> says.
\<close>

definition brain_process_input ::
  "int \<Rightarrow> (message list \<Rightarrow> string \<Rightarrow> exn + string) \<Rightarrow> nat \<Rightarrow> string \<Rightarrow> brain
     \<Rightarrow> string \<times> brain" where
  "brain_process_input B responder rnd text b =
     process_input B
       (responder (conversation_history b @ [\<lparr>role = ''user'', content = text\<rparr>]) text)
       rnd text b"

text \<open>\<open>_on_speech_detected\<close>: the text goes to \<open>process_input\<close>, the response to \<open>speak\<close>.\<close>

definition on_speech_detected ::
  "int \<Rightarrow> (message list \<Rightarrow> string \<Rightarrow> exn + string) \<Rightarrow> nat \<Rightarrow> string \<Rightarrow> haro \<Rightarrow> haro" where
  "on_speech_detected B responder rnd text h =
     (let (response, b) = brain_process_input B responder rnd text (ai_brain h)
      in h\<lparr>ai_brain := b, engine := speak response False (engine h)\<rparr>)"

text \<open>A recognized utterance on its way from \<open>_process_audio\<close> through the callback.\<close>

definition heard ::
  "string list \<Rightarrow> int \<Rightarrow> (message list \<Rightarrow> string \<Rightarrow> exn + string) \<Rightarrow> nat
     \<Rightarrow> recognition_error + string \<Rightarrow> haro \<Rightarrow> haro" where
  "heard wake_words B responder rnd recognized h =
     (case process_audio wake_words recognized of
        None \<Rightarrow> h
      | Some text \<Rightarrow> on_speech_detected B responder rnd text h)"

definition init_haro :: "brain_kind \<Rightarrow> haro" where
  "init_haro k = \<lparr>ai_brain = init_brain k, engine = init_engine\<rparr>"

text \<open>A local brain whose knowledge base is \<open>example_load\<close> and whose draws are all 0.\<close>

definition example_responder :: "message list \<Rightarrow> string \<Rightarrow> exn + string" where
  "example_responder = local_responder example_load (eval_table []) 0"

section \<open>Properties of the conversation session\<close>

lemma choice_in_set: "xs \<noteq> [] \<Longrightarrow> choice rnd xs \<in> set xs"
  by (simp add: choice_def)

lemma get_error_response_in: "get_error_response rnd \<in> set error_responses"
  unfolding get_error_response_def by (rule choice_in_set) (simp add: error_responses_def)

lemma manage_nonempty:
  "h \<noteq> [] \<Longrightarrow> \<exists>h'. manage_conversation_history B h = Inr h'"
  by (cases h) (simp_all add: manage_conversation_history_def Let_def)

text \<open>
  Trimming keeps the newest entry whenever the budget is not negative (for a budget of
  \<open>0\<close> the slice \<open>h[-0:]\<close> is the whole list).
\<close>

lemma manage_last:
  assumes "0 \<le> B" "h \<noteq> []" "manage_conversation_history B h = Inr h'"
  shows "h' \<noteq> [] \<and> last h' = last h"
proof (cases "int (length h) > B * 2 + 1")
  case False
  with assms show ?thesis by (simp add: manage_conversation_history_def)
next
  case over: True
  obtain x xs where h: "h = x # xs" using assms(2) by (cases h) auto
  show ?thesis
  proof (cases "B = 0")
    case True
    with assms h over show ?thesis
      by (auto simp: manage_conversation_history_def py_slice_from_def)
  next
    case False
    with assms(1) have B: "0 < B" by simp
    let ?d = "nat (max 0 (int (length h) - 2 * B))"
    have d: "?d < length h" using B over by auto
    have "h' = x # drop ?d h"
      using assms(3) h over B
      by (auto simp: manage_conversation_history_def py_slice_from_def Let_def algebra_simps)
    with d show ?thesis by simp
  qed
qed

text \<open>
  Claim C8.  For every session state, \<open>reset_conversation\<close> leaves a history of exactly
  one system turn, leaves the user context unchanged, and the summary's
  \<open>total_exchanges\<close> is 0 right afterwards.
\<close>

theorem reset_conversation_frame:
  "conversation_history (reset_conversation k s)
     = [\<lparr>role = ''system'', content = system_content k\<rparr>]
   \<and> user_context (reset_conversation k s) = user_context s
   \<and> total_exchanges (reset_conversation k s) = 0"
  by (simp add: reset_conversation_def initialize_conversation_def total_exchanges_def)

text \<open>
  Claim C2.  When the responder raises during \<open>process_input\<close>, the call returns one of
  the three fixed fallback strings (the model's result is a value: nothing is raised to
  the caller), and the history grows by exactly one entry, the user turn; no assistant
  turn is appended for the failed attempt.
\<close>

theorem process_input_failure_fallback:
  "fst (process_input B (generate_response (Inl e)) rnd u s) \<in> set error_responses
   \<and> length error_responses = 3
   \<and> conversation_history (snd (process_input B (generate_response (Inl e)) rnd u s))
       = conversation_history s @ [\<lparr>role = ''user'', content = u\<rparr>]
   \<and> length (conversation_history (snd (process_input B (generate_response (Inl e)) rnd u s)))
       = length (conversation_history s) + 1"
  using get_error_response_in [of rnd]
  by (simp add: process_input_def generate_response_def Let_def error_responses_def)

text \<open>
  Claim C10.  When \<open>process_input\<close> does not take the failure path, the reply it returns
  is the content of the last history entry, and that entry has role \<open>assistant\<close>: the
  trimming never removes the assistant turn just appended.  The budget is taken not
  negative, as the configuration has it.
\<close>

theorem process_input_reply_is_last_turn:
  assumes "0 \<le> B" and "process_input B (Inr r) rnd u s = (reply, s')"
  shows "reply = r \<and> conversation_history s' \<noteq> []
         \<and> last (conversation_history s') = \<lparr>role = ''assistant'', content = reply\<rparr>"
proof -
  let ?h2 = "conversation_history s @ [\<lparr>role = ''user'', content = u\<rparr>]
               @ [\<lparr>role = ''assistant'', content = r\<rparr>]"
  have ne: "?h2 \<noteq> []" by simp
  obtain h3 where m: "manage_conversation_history B ?h2 = Inr h3"
    using manage_nonempty [OF ne] by blast
  from manage_last [OF assms(1) ne m]
  have "h3 \<noteq> [] \<and> last h3 = \<lparr>role = ''assistant'', content = r\<rparr>" by simp
  moreover from assms(2) m have "reply = r \<and> conversation_history s' = h3"
    by (auto simp: process_input_def Let_def)
  ultimately show ?thesis by simp
qed

theorem process_input_reply_is_last_turn_witness:
  "(0::int) \<le> MAX_CONVERSATION_HISTORY
   \<and> fst (process_input MAX_CONVERSATION_HISTORY (Inr ''Hi there!'') 0 ''hello''
            (init_brain Local)) = ''Hi there!''
   \<and> last (conversation_history (snd (process_input MAX_CONVERSATION_HISTORY
            (Inr ''Hi there!'') 0 ''hello'' (init_brain Local))))
       = \<lparr>role = ''assistant'', content = ''Hi there!''\<rparr>"
proof -
  have B: "(0::int) \<le> MAX_CONVERSATION_HISTORY" by (simp add: MAX_CONVERSATION_HISTORY_def)
  show ?thesis
    using B process_input_reply_is_last_turn [OF B,
      of "''Hi there!''" 0 "''hello''" "init_brain Local"
         "fst (process_input MAX_CONVERSATION_HISTORY (Inr ''Hi there!'') 0 ''hello''
            (init_brain Local))"
         "snd (process_input MAX_CONVERSATION_HISTORY (Inr ''Hi there!'') 0 ''hello''
            (init_brain Local))"]
    by simp
qed
section \<open>The history bound and the pairing of turns\<close>

lemma run_calls_snoc:
  "run_calls B (cs @ [c]) s
     = snd (process_input B (fst c) (fst (snd c)) (snd (snd c)) (run_calls B cs s))"
proof (induction cs arbitrary: s)
  case Nil
  show ?case by (cases c) simp
next
  case (Cons a cs)
  then show ?case by (cases a) simp
qed

lemma ua_count_length: "ua_count p \<le> length p"
  by (induction p) (auto simp: ua_count_def count_role_def)

lemma sys_headed_count:
  assumes "sys_headed k h"
  shows "count_role ''system'' h = 1 \<and> ua_count h + 1 \<le> length h"
proof -
  from assms obtain p where h: "h = \<lparr>role = ''system'', content = system_content k\<rparr> # p"
    and p: "\<forall>m \<in> set p. role m \<noteq> ''system''" by (auto simp: sys_headed_def)
  from p have "filter (\<lambda>m. role m = ''system'') p = []" by (simp add: filter_empty_conv)
  with h ua_count_length [of p] show ?thesis
    by (simp add: count_role_def ua_count_def)
qed

lemma manage_sys_headed:
  assumes B: "1 \<le> B" and sh: "sys_headed k h"
  shows "\<exists>h'. manage_conversation_history B h = Inr h' \<and> sys_headed k h'
           \<and> int (length h') \<le> 2 * B + 1"
proof -
  from sh obtain p where h: "h = \<lparr>role = ''system'', content = system_content k\<rparr> # p"
    and p: "\<forall>m \<in> set p. role m \<noteq> ''system''" by (auto simp: sys_headed_def)
  show ?thesis
  proof (cases "int (length h) > B * 2 + 1")
    case False
    with sh show ?thesis by (simp add: manage_conversation_history_def)
  next
    case True
    define d where "d = nat (int (length h) - 2 * B) - 1"
    have d: "nat (max 0 (int (length h) - 2 * B)) = Suc d"
      using True B by (simp add: d_def)
    have "py_slice_from (- (B * 2 + 1 - 1)) h = drop (nat (max 0 (int (length h) - 2 * B))) h"
      using B by (simp add: py_slice_from_def algebra_simps)
    also have "\<dots> = drop (Suc d) h" by (simp only: d)
    also have "\<dots> = drop d p" using h by simp
    finally have m: "manage_conversation_history B h
        = Inr (\<lparr>role = ''system'', content = system_content k\<rparr> # drop d p)"
      using True h by (simp add: manage_conversation_history_def Let_def)
    have "\<forall>m \<in> set (drop d p). role m \<noteq> ''system''"
      using p by (meson in_set_dropD)
    moreover have "int (length (drop d p)) \<le> 2 * B"
      using True B h by (simp add: d_def)
    ultimately show ?thesis using m by (simp add: sys_headed_def)
  qed
qed

lemma process_input_sys_headed:
  assumes B: "1 \<le> B" and sh: "sys_headed k (conversation_history s)"
  shows "sys_headed k (conversation_history (snd (process_input B g rnd u s)))
    \<and> (case g of
          Inl e \<Rightarrow> length (conversation_history (snd (process_input B g rnd u s)))
                     = length (conversation_history s) + 1
        | Inr r \<Rightarrow> int (length (conversation_history (snd (process_input B g rnd u s))))
                     \<le> 2 * B + 1)"
proof (cases g)
  case (Inl e)
  with sh show ?thesis by (auto simp: process_input_def Let_def sys_headed_def)
next
  case (Inr r)
  let ?h2 = "conversation_history s @ [\<lparr>role = ''user'', content = u\<rparr>]
       @ [\<lparr>role = ''assistant'', content = r\<rparr>]"
  from sh have "sys_headed k ?h2" by (auto simp: sys_headed_def)
  from manage_sys_headed [OF B this] obtain h3
    where "manage_conversation_history B ?h2 = Inr h3" "sys_headed k h3"
      "int (length h3) \<le> 2 * B + 1" by blast
  with Inr show ?thesis by (simp add: process_input_def Let_def)
qed

lemma trailing_failures_snoc:
  "trailing_failures (cs @ [c]) = (if is_failed c then Suc (trailing_failures cs) else 0)"
  by (simp add: trailing_failures_def)

lemma run_calls_invariant:
  assumes B: "1 \<le> B"
  shows "sys_headed k (conversation_history (run_calls B cs (init_brain k)))
     \<and> int (length (conversation_history (run_calls B cs (init_brain k))))
          \<le> 2 * B + 1 + int (trailing_failures cs)"
proof (induction cs rule: rev_induct)
  case Nil
  from B show ?case
    by (simp add: init_brain_def initialize_conversation_def sys_headed_def trailing_failures_def)
next
  case (snoc c cs)
  let ?s = "run_calls B cs (init_brain k)"
  from snoc have sh: "sys_headed k (conversation_history ?s)"
    and len: "int (length (conversation_history ?s)) \<le> 2 * B + 1 + int (trailing_failures cs)"
    by simp_all
  note step = process_input_sys_headed [OF B sh, of "fst c" "fst (snd c)" "snd (snd c)"]
  show ?case
  proof (cases "fst c")
    case (Inl e)
    with step len show ?thesis
      by (simp add: run_calls_snoc trailing_failures_snoc is_failed_def)
  next
    case (Inr r)
    with step show ?thesis
      by (simp add: run_calls_snoc trailing_failures_snoc is_failed_def)
  qed
qed

text \<open>
  Claim C1, as amended.  With a budget of at least 1, after every sequence of
  \<open>process_input\<close> calls on a fresh session, failed calls included, element 0 is still
  the system turn and it is the only one; the number of user and assistant turns is at
  most \<open>2B\<close> plus the number of failed calls since the last call that did not fail.
  So the bound \<open>2B\<close> holds after every call that does not take the failure path.
\<close>

theorem history_bound_between_failures:
  assumes "1 \<le> B"
  shows "hd (conversation_history (run_calls B cs (init_brain k)))
           = \<lparr>role = ''system'', content = system_content k\<rparr>
       \<and> count_role ''system'' (conversation_history (run_calls B cs (init_brain k))) = 1
       \<and> int (ua_count (conversation_history (run_calls B cs (init_brain k))))
            \<le> 2 * B + int (trailing_failures cs)"
proof -
  let ?h = "conversation_history (run_calls B cs (init_brain k))"
  from run_calls_invariant [OF assms, of k cs]
  have sh: "sys_headed k ?h" and len: "int (length ?h) \<le> 2 * B + 1 + int (trailing_failures cs)"
    by simp_all
  from sh have "hd ?h = \<lparr>role = ''system'', content = system_content k\<rparr>"
    by (auto simp: sys_headed_def)
  moreover from sys_headed_count [OF sh] len
  have "count_role ''system'' ?h = 1" "int (ua_count ?h) \<le> 2 * B + int (trailing_failures cs)"
    by auto
  ultimately show ?thesis by simp
qed

theorem history_bound_between_failures_witness:
  "(1::int) \<le> MAX_CONVERSATION_HISTORY
   \<and> trailing_failures (replicate 10 (ok_call ''q'' ''r'') @ [failed_call ''q'', ok_call ''q'' ''r'']) = 0
   \<and> int (ua_count (conversation_history (run_calls MAX_CONVERSATION_HISTORY
        (replicate 10 (ok_call ''q'' ''r'') @ [failed_call ''q'', ok_call ''q'' ''r''])
        (init_brain Remote)))) \<le> 2 * MAX_CONVERSATION_HISTORY"
proof -
  have B: "(1::int) \<le> MAX_CONVERSATION_HISTORY" by (simp add: MAX_CONVERSATION_HISTORY_def)
  have tf: "trailing_failures (replicate 10 (ok_call ''q'' ''r'') @ [failed_call ''q'', ok_call ''q'' ''r'']) = 0"
    by (simp add: trailing_failures_def is_failed_def ok_call_def)
  show ?thesis
    using B tf history_bound_between_failures [OF B,
      of "replicate 10 (ok_call ''q'' ''r'') @ [failed_call ''q'', ok_call ''q'' ''r'']" Remote]
    by simp
qed

text \<open>
  Claim C1 as stated fails after a failed call: ten exchanges fill the budget of 10, and
  the failed eleventh call appends its user turn without trimming, which leaves 21 user
  and assistant turns.
\<close>

theorem history_bound_counterexample:
  "\<not> int (ua_count (conversation_history (run_calls MAX_CONVERSATION_HISTORY
        (replicate 10 (ok_call ''q'' ''r'') @ [failed_call ''q''])
        (init_brain Remote)))) \<le> 2 * MAX_CONVERSATION_HISTORY"
  by code_simp


text \<open>
  A budget of 0 is outside these results: \<open>h[-0:]\<close> is the whole list, so the trimming
  puts a second copy of the system turn in front and removes nothing.
\<close>

lemma zero_budget_keeps_everything:
  "map role (conversation_history (run_calls 0 [ok_call ''q'' ''r''] (init_brain Remote)))
     = [''system'', ''system'', ''user'', ''assistant'']"
  by code_simp










section \<open>The local responder\<close>

lemma re_search_math_none:
  "(\<forall>c \<in> set s. \<not> math_char c) \<Longrightarrow> re_search_math s = None"
  by (simp add: re_search_math_def)

lemma re_search_math_run:
  assumes s: "s = pre @ run @ post"
    and pre: "\<forall>c \<in> set pre. \<not> math_char c"
    and ne: "run \<noteq> []"
    and run: "\<forall>c \<in> set run. math_char c"
    and post: "post = [] \<or> \<not> math_char (hd post)"
  shows "re_search_math s = Some run"
proof -
  have d1: "dropWhile (\<lambda>c. \<not> math_char c) s = dropWhile (\<lambda>c. \<not> math_char c) (run @ post)"
    using pre unfolding s by (simp add: dropWhile_append2)
  from ne obtain r rs where r: "run = r # rs" by (cases run) auto
  with run have "math_char r" by simp
  with r have d2: "dropWhile (\<lambda>c. \<not> math_char c) (run @ post) = run @ post" by simp
  have "takeWhile math_char (run @ post) = run @ takeWhile math_char post"
    using run by (simp add: takeWhile_append2)
  also have "takeWhile math_char post = []"
    using post by (cases post) auto
  finally have t: "takeWhile math_char (run @ post) = run" by simp
  from d1 d2 t ne show ?thesis by (simp add: re_search_math_def Let_def)
qed

text \<open>
  What the handler computes, by the first run of characters of the class in the input.
\<close>

lemma handle_math_first_run:
  "((\<forall>c \<in> set s. \<not> math_char c) \<longrightarrow> handle_math eval s = math_help)
   \<and> (\<forall>pre run post.
        s = pre @ run @ post \<and> (\<forall>c \<in> set pre. \<not> math_char c) \<and> run \<noteq> []
          \<and> (\<forall>c \<in> set run. math_char c) \<and> (post = [] \<or> \<not> math_char (hd post))
        \<longrightarrow> handle_math eval s =
              (if set (strip run) \<subseteq> allowed_chars
               then (case eval (strip run) of
                       Some result \<Rightarrow> ''The answer is '' @ result
                     | None \<Rightarrow> math_help)
               else math_help))"
proof (intro conjI impI allI)
  assume "\<forall>c \<in> set s. \<not> math_char c"
  then show "handle_math eval s = math_help"
    by (simp add: handle_math_def re_search_math_none)
next
  fix pre run post
  assume a: "s = pre @ run @ post \<and> (\<forall>c \<in> set pre. \<not> math_char c) \<and> run \<noteq> []
          \<and> (\<forall>c \<in> set run. math_char c) \<and> (post = [] \<or> \<not> math_char (hd post))"
  then have "re_search_math s = Some run"
    using re_search_math_run [of s pre run post] by blast
  then show "handle_math eval s =
              (if set (strip run) \<subseteq> allowed_chars
               then (case eval (strip run) of
                       Some result \<Rightarrow> ''The answer is '' @ result
                     | None \<Rightarrow> math_help)
               else math_help)"
    by (simp add: handle_math_def Let_def list_all_iff subset_eq)
qed

lemma handle_math_first_run_examples:
  "handle_math (eval_table [(''4*5'', ''20'')]) ''calculate'' = math_help
   \<and> handle_math (eval_table [(''4*5'', ''20'')]) ''calculate 4*5'' = ''The answer is 20''"
proof -
  have 1: "\<forall>c \<in> set ''calculate''. \<not> math_char c"
    by (simp add: math_char_def isspace_def)
  have 2: "''calculate 4*5'' = ''calculate'' @ '' 4*5'' @ []
     \<and> (\<forall>c \<in> set ''calculate''. \<not> math_char c) \<and> '' 4*5'' \<noteq> []
     \<and> (\<forall>c \<in> set '' 4*5''. math_char c) \<and> ([] = [] \<or> \<not> math_char (hd []))"
    by (simp add: math_char_def isspace_def)
  have 3: "strip '' 4*5'' = ''4*5''" by (simp add: strip_def isspace_def)
  from handle_math_first_run [of "''calculate''" "eval_table [(''4*5'', ''20'')]"] 1
  have a: "handle_math (eval_table [(''4*5'', ''20'')]) ''calculate'' = math_help" by blast
  from handle_math_first_run [of "''calculate 4*5''" "eval_table [(''4*5'', ''20'')]"] 2
  have "handle_math (eval_table [(''4*5'', ''20'')]) ''calculate 4*5'' =
     (if set (strip '' 4*5'') \<subseteq> allowed_chars
      then (case eval_table [(''4*5'', ''20'')] (strip '' 4*5'') of
              Some result \<Rightarrow> ''The answer is '' @ result
            | None \<Rightarrow> math_help)
      else math_help)" by blast
  then have b: "handle_math (eval_table [(''4*5'', ''20'')]) ''calculate 4*5'' = ''The answer is 20''"
    by (simp add: 3 allowed_chars_def eval_table_def)
  from a b show ?thesis by simp
qed

text \<open>
  Claim C5, at inputs on which the code departs from it.  The claim has the handler
  extract the longest run of the class; \<open>re.search\<close> returns the first one.  On
  \<open>what is 4*5\<close> the longest run is \<open> 4*5\<close>, whose value is 20, but the first run is the
  space after \<open>what\<close>: stripped it is empty, its evaluation raises, and the reply is the
  help string.  The same happens on \<open>what is 15 plus 7\<close>, the example that the help
  string itself gives.  On \<open>1 plus 22\<close> the handler answers 1.
\<close>

theorem handle_math_misses_expression:
  "re_search_math ''what is 4*5'' = Some '' ''
   \<and> strip (longest_run math_char ''what is 4*5'') = ''4*5''
   \<and> handle_math (eval_table [(''4*5'', ''20'')]) ''what is 4*5'' = math_help
   \<and> generate_local_response example_load (eval_table [(''4*5'', ''20'')]) 0 ''what is 4*5''
       = math_help
   \<and> handle_math (eval_table [(''15'', ''15''), (''7'', ''7'')]) ''what is 15 plus 7''
       = math_help
   \<and> longest_run math_char ''1 plus 22'' = '' 22''
   \<and> handle_math (eval_table [(''1'', ''1''), (''22'', ''22'')]) ''1 plus 22''
       = ''The answer is 1''"
  by code_simp

lemma pools_nonempty:
  "greeting_responses \<noteq> []" "goodbye_responses \<noteq> []" "thanks_responses \<noteq> []"
  "time_responses t \<noteq> []" "date_responses t \<noteq> []" "weather_responses \<noteq> []"
  "robot_responses \<noteq> []" "capabilities_responses \<noteq> []" "unknown_responses \<noteq> []"
  by (simp_all add: greeting_responses_def goodbye_responses_def thanks_responses_def
      time_responses_def date_responses_def weather_responses_def robot_responses_def
      capabilities_responses_def unknown_responses_def)

lemma generate_local_response_by_category:
  "generate_local_response t eval rnd u =
     (case classify u of
        MathExpression \<Rightarrow> handle_math eval u
      | SelfIdentity \<Rightarrow> self_introduction
      | c \<Rightarrow> choice rnd (pool t c))"
  by (simp add: generate_local_response_def classify_def rules_def Let_def)

text \<open>
  Claim C9.  The local responder classifies the lower-cased, stripped input by the
  ordered rules, first match first: greeting, goodbye, thanks, time, date, weather,
  math, robot, capability, self-identity, and unknown when no rule matches.  For math
  the reply is the math handler's, for self-identity the fixed introduction, and for
  every other category a member of the category's fixed pool.
\<close>

theorem generate_local_response_priority:
  "classify u = first_match rules (strip (lower u))
   \<and> map fst rules = [Greeting, Goodbye, Thanks, TimeQuery, DateQuery, WeatherQuery,
        MathExpression, Robot, Capability, SelfIdentity]
   \<and> (classify u = MathExpression \<longrightarrow> generate_local_response t eval rnd u = handle_math eval u)
   \<and> (classify u = SelfIdentity \<longrightarrow> generate_local_response t eval rnd u = self_introduction)
   \<and> (classify u \<noteq> MathExpression \<and> classify u \<noteq> SelfIdentity
        \<longrightarrow> generate_local_response t eval rnd u \<in> set (pool t (classify u)))"
proof -
  have "generate_local_response t eval rnd u \<in> set (pool t (classify u))"
    if "classify u \<noteq> MathExpression" "classify u \<noteq> SelfIdentity"
    using that pools_nonempty
    by (cases "classify u") (simp_all add: generate_local_response_by_category choice_in_set)
  then show ?thesis
    by (simp add: generate_local_response_by_category) (simp add: classify_def rules_def)
qed


theorem generate_local_response_priority_witness:
  "classify ''Good morning, what time is it?'' = Greeting
   \<and> generate_local_response example_load (eval_table [(''4*5'', ''20'')]) 1
         ''Good morning, what time is it?'' \<in> set greeting_responses
   \<and> classify ''calculate 4*5'' = MathExpression
   \<and> generate_local_response example_load (eval_table [(''4*5'', ''20'')]) 1 ''calculate 4*5''
       = handle_math (eval_table [(''4*5'', ''20'')]) ''calculate 4*5''
   \<and> classify ''Who are you?'' = SelfIdentity
   \<and> generate_local_response example_load (eval_table [(''4*5'', ''20'')]) 1 ''Who are you?''
       = self_introduction"
proof -
  let ?ev = "eval_table [(''4*5'', ''20'')]"
  have 1: "classify ''Good morning, what time is it?'' = Greeting" by code_simp
  have 2: "classify ''calculate 4*5'' = MathExpression" by code_simp
  have 3: "classify ''Who are you?'' = SelfIdentity" by code_simp
  from generate_local_response_priority [of "''Good morning, what time is it?''" example_load ?ev 1]
  have "classify ''Good morning, what time is it?'' \<noteq> MathExpression
        \<and> classify ''Good morning, what time is it?'' \<noteq> SelfIdentity
      \<longrightarrow> generate_local_response example_load ?ev 1 ''Good morning, what time is it?''
            \<in> set (pool example_load (classify ''Good morning, what time is it?''))"
    by blast
  with 1 have a: "generate_local_response example_load ?ev 1 ''Good morning, what time is it?''
      \<in> set greeting_responses" by simp
  from generate_local_response_priority [of "''calculate 4*5''" example_load ?ev 1]
  have "classify ''calculate 4*5'' = MathExpression
      \<longrightarrow> generate_local_response example_load ?ev 1 ''calculate 4*5''
            = handle_math ?ev ''calculate 4*5''"
    by blast
  with 2 have b: "generate_local_response example_load ?ev 1 ''calculate 4*5''
      = handle_math ?ev ''calculate 4*5''" by simp
  from generate_local_response_priority [of "''Who are you?''" example_load ?ev 1]
  have "classify ''Who are you?'' = SelfIdentity
      \<longrightarrow> generate_local_response example_load ?ev 1 ''Who are you?'' = self_introduction"
    by blast
  with 3 have c: "generate_local_response example_load ?ev 1 ''Who are you?''
      = self_introduction" by simp
  from 1 2 3 a b c show ?thesis by simp
qed

section \<open>Wake-word filtering\<close>

lemma take_is_prefix: "take (length w) t = w \<longleftrightarrow> (\<exists>post. t = w @ post)"
proof
  assume "take (length w) t = w"
  then have "t = w @ drop (length w) t" by (metis append_take_drop_id)
  then show "\<exists>post. t = w @ post" ..
next
  assume "\<exists>post. t = w @ post"
  then show "take (length w) t = w" by auto
qed

lemma contains_iff: "contains w t \<longleftrightarrow> (\<exists>pre post. t = pre @ w @ post)"
proof (induction t)
  case Nil
  then show ?case by auto
next
  case (Cons c cs)
  show ?case
  proof
    assume "contains w (c # cs)"
    then consider "take (length w) (c # cs) = w" | "contains w cs" by auto
    then show "\<exists>pre post. c # cs = pre @ w @ post"
    proof cases
      case 1
      then obtain post where "c # cs = w @ post" using take_is_prefix by blast
      then have "c # cs = [] @ w @ post" by simp
      then show ?thesis by blast
    next
      case 2
      with Cons.IH obtain pre post where "cs = pre @ w @ post" by blast
      then have "c # cs = (c # pre) @ w @ post" by simp
      then show ?thesis by blast
    qed
  next
    assume "\<exists>pre post. c # cs = pre @ w @ post"
    then obtain pre post where p: "c # cs = pre @ w @ post" by blast
    show "contains w (c # cs)"
    proof (cases pre)
      case Nil
      with p have "take (length w) (c # cs) = w" using take_is_prefix by auto
      then show ?thesis by simp
    next
      case (Cons d pre')
      with p have "cs = pre' @ w @ post" by simp
      with Cons.IH have "contains w cs" by blast
      then show ?thesis by simp
    qed
  qed
qed

lemma process_audio_discards:
  "process_audio ws (Inr utterance) = None
     \<longleftrightarrow> \<not> (\<exists>w \<in> set ws. \<exists>pre post. lower utterance = pre @ w @ post)"
  by (simp add: process_audio_def contains_wake_word_def any_in_def list_ex_iff contains_iff
      Let_def)

lemma process_audio_forwards_cleaned:
  assumes "contains_wake_word ws (lower utterance)"
    and "strip (remove_wake_words ws (lower utterance)) \<noteq> []"
  shows "process_audio ws (Inr utterance) = Some (strip (remove_wake_words ws (lower utterance)))"
  using assms by (simp add: process_audio_def Let_def)

lemma process_audio_examples:
  "process_audio WAKE_WORDS (Inr ''hey haro what time is it'') = Some ''what time is it''"
  "process_audio WAKE_WORDS (Inr ''what time is it'') = None"
  by code_simp+

text \<open>
  What becomes of a recognized utterance, by whether its lower-cased text contains a wake
  phrase and by what is left of it after \<open>_remove_wake_words\<close>.
\<close>

lemma heard_by_wake_word:
  assumes "wake = (\<exists>w \<in> set ws. \<exists>pre post. lower u = pre @ w @ post)"
    and "cleaned = strip (remove_wake_words ws (lower u))"
    and "forwarded = (if cleaned \<noteq> [] then cleaned else acknowledgement)"
  shows "(\<not> wake \<longrightarrow> heard ws B responder rnd (Inr u) h = h)
     \<and> (wake \<longrightarrow> heard ws B responder rnd (Inr u) h
           = h\<lparr>ai_brain := snd (brain_process_input B responder rnd forwarded (ai_brain h)),
               engine := speak (fst (brain_process_input B responder rnd forwarded (ai_brain h)))
                           False (engine h)\<rparr>)"
proof -
  have w: "contains_wake_word ws (lower u) = wake"
    by (simp add: assms(1) contains_wake_word_def any_in_def list_ex_iff contains_iff)
  have "process_audio ws (Inr u) = (if wake then Some forwarded else None)"
    by (simp add: process_audio_def w assms(2,3) Let_def)
  then show ?thesis
    by (simp add: heard_def on_speech_detected_def split_def Let_def)
qed

lemma example_responder_acknowledgement:
  "example_responder h acknowledgement = Inr ''Hello! Great to see you again!''"
  by code_simp

lemma example_responder_time:
  "example_responder h ''what time is it'' = Inr ''The current time is 14:05 PM''"
  by code_simp

lemma heard_examples:
  "heard WAKE_WORDS MAX_CONVERSATION_HISTORY example_responder 0 (Inr ''what time is it'')
      (init_haro Local) = init_haro Local
   \<and> map content (conversation_history (ai_brain (heard WAKE_WORDS MAX_CONVERSATION_HISTORY
        example_responder 0 (Inr ''hey haro what time is it'') (init_haro Local))))
       = [system_content Local, ''what time is it'', ''The current time is 14:05 PM'']
   \<and> map content (conversation_history (ai_brain (heard WAKE_WORDS MAX_CONVERSATION_HISTORY
        example_responder 0 (Inr ''Haro'') (init_haro Local))))
       = [system_content Local, acknowledgement, ''Hello! Great to see you again!'']"
proof -
  let ?B = MAX_CONVERSATION_HISTORY and ?h = "init_haro Local"
  have hist: "conversation_history (snd (brain_process_input ?B example_responder 0 t (ai_brain ?h)))
      = [\<lparr>role = ''system'', content = system_content Local\<rparr>, \<lparr>role = ''user'', content = t\<rparr>,
         \<lparr>role = ''assistant'', content = r\<rparr>]"
    if "\<And>h. example_responder h t = Inr r" for t r
    using that
    by (simp add: brain_process_input_def process_input_def manage_conversation_history_def
        MAX_CONVERSATION_HISTORY_def init_haro_def init_brain_def initialize_conversation_def
        Let_def)
  have n1: "\<not> contains_wake_word WAKE_WORDS (lower ''what time is it'')" by code_simp
  have n2: "contains_wake_word WAKE_WORDS (lower ''hey haro what time is it'')" by code_simp
  have n3: "contains_wake_word WAKE_WORDS (lower ''Haro'')" by code_simp
  have c2: "strip (remove_wake_words WAKE_WORDS (lower ''hey haro what time is it''))
      = ''what time is it''" by code_simp
  have c3: "strip (remove_wake_words WAKE_WORDS (lower ''Haro'')) = []" by code_simp
  note cw = contains_wake_word_def any_in_def list_ex_iff contains_iff
  from heard_by_wake_word [OF refl refl refl, of WAKE_WORDS "''what time is it''" ?B
      example_responder 0 ?h] n1
  have a: "heard WAKE_WORDS ?B example_responder 0 (Inr ''what time is it'') ?h = ?h"
    by (simp add: cw)
  from heard_by_wake_word [OF refl refl refl, of WAKE_WORDS "''hey haro what time is it''" ?B
      example_responder 0 ?h] n2
  have b: "conversation_history (ai_brain (heard WAKE_WORDS ?B example_responder 0
      (Inr ''hey haro what time is it'') ?h))
      = conversation_history (snd (brain_process_input ?B example_responder 0
          ''what time is it'' (ai_brain ?h)))"
    by (simp add: cw c2)
  from heard_by_wake_word [OF refl refl refl, of WAKE_WORDS "''Haro''" ?B example_responder 0 ?h] n3
  have c: "conversation_history (ai_brain (heard WAKE_WORDS ?B example_responder 0
      (Inr ''Haro'') ?h))
      = conversation_history (snd (brain_process_input ?B example_responder 0
          acknowledgement (ai_brain ?h)))"
    by (simp add: cw c3)
  from a b c hist [OF example_responder_time] hist [OF example_responder_acknowledgement]
  show ?thesis by simp
qed

text \<open>
  Claim C4, at the input on which the code departs from it.  The claim has a fixed
  acknowledgement take the place of the call of the responder when only a wake phrase
  was said, as the comment in \<open>_process_audio\<close> announces.  On the utterance \<open>Haro\<close>
  the callback for recognized speech is called with the acknowledgement text and hands
  it to \<open>process_input\<close> as if the user had said it: the responder is called on it, and
  a user turn with that text and an assistant turn are recorded.
\<close>

theorem bare_wake_word_reaches_responder:
  "process_audio WAKE_WORDS (Inr ''Haro'') = Some acknowledgement
   \<and> conversation_history (ai_brain (heard WAKE_WORDS MAX_CONVERSATION_HISTORY
         example_responder 0 (Inr ''Haro'') (init_haro Local)))
       = [\<lparr>role = ''system'', content = system_content Local\<rparr>,
          \<lparr>role = ''user'', content = acknowledgement\<rparr>,
          \<lparr>role = ''assistant'', content = ''Hello! Great to see you again!''\<rparr>]"
proof -
  have p: "process_audio WAKE_WORDS (Inr ''Haro'') = Some acknowledgement" by code_simp
  then show ?thesis
    by (simp add: heard_def on_speech_detected_def brain_process_input_def
        example_responder_acknowledgement process_input_def manage_conversation_history_def
        MAX_CONVERSATION_HISTORY_def init_haro_def init_brain_def initialize_conversation_def
        Let_def)
qed

section \<open>The speech output queue\<close>

lemma run_events_append: "run_events (xs @ ys) e = run_events ys (run_events xs e)"
  by (induction xs arbitrary: e) auto

lemma worker_step_serving:
  assumes "serving e"
  shows "serving (worker_step e)
     \<and> rendered (worker_step e) @ pending (worker_step e) = rendered e @ pending e
     \<and> work (worker_step e) = work e - 1"
proof (cases "in_flight e")
  case (Some seg)
  with assms show ?thesis by (simp add: worker_step_def serving_def pending_def work_def)
next
  case None
  show ?thesis
  proof (cases "speech_queue e")
    case Nil
    with None assms show ?thesis by (simp add: worker_step_def serving_def pending_def work_def)
  next
    case (Cons item q)
    with assms obtain seg where "item = Some seg" by (cases item) (auto simp: serving_def)
    with Cons None assms show ?thesis
      by (simp add: worker_step_def serving_def pending_def work_def)
  qed
qed

lemma speak_serving:
  assumes "serving e" "strip text \<noteq> []"
  shows "serving (speak text False e)
     \<and> rendered (speak text False e) @ pending (speak text False e)
          = rendered e @ pending e @ [text]
     \<and> work (speak text False e) = work e + 2"
  using assms by (simp add: speak_def put_def serving_def pending_def work_def)

lemma worker_steps_serving:
  assumes "serving e"
  shows "serving (run_events (replicate k WorkerStep) e)
     \<and> rendered (run_events (replicate k WorkerStep) e)
          @ pending (run_events (replicate k WorkerStep) e) = rendered e @ pending e
     \<and> work (run_events (replicate k WorkerStep) e) = work e - k"
  using assms
proof (induction k arbitrary: e)
  case 0
  then show ?case by simp
next
  case (Suc k)
  from worker_step_serving [OF Suc.prems]
  have s: "serving (worker_step e)"
    and r: "rendered (worker_step e) @ pending (worker_step e) = rendered e @ pending e"
    and w: "work (worker_step e) = work e - 1" by simp_all
  from Suc.IH [OF s] r w show ?case by simp
qed

lemma work_pending: "work e \<le> 1 \<Longrightarrow> pending e = []"
  by (cases "speech_queue e") (simp_all add: work_def pending_def)

lemma starts_append: "starts xs (xs @ ys)"
  by (simp add: starts_def)

text \<open>
  Claim C7.  Two texts \<open>a\<close> and \<open>b\<close> that are not blank, enqueued in this order without
  interrupt on a fresh engine, however the steps of the worker fall before, between and
  after the two calls: what the worker has rendered is always an initial part of
  \<open>[a, b]\<close>, and it is exactly \<open>[a, b]\<close> once the worker has taken three steps after
  the second call.
\<close>

theorem speech_fifo_order:
  assumes a: "strip a \<noteq> []" and b: "strip b \<noteq> []"
    and e: "e = run_events (replicate k1 WorkerStep @ [Speak a False]
               @ replicate k2 WorkerStep @ [Speak b False] @ replicate k3 WorkerStep) init_engine"
  shows "starts (rendered e) [a, b] \<and> (3 \<le> k3 \<longrightarrow> rendered e = [a, b])"
proof -
  let ?e1 = "run_events (replicate k1 WorkerStep) init_engine"
  let ?e2 = "speak a False ?e1"
  let ?e3 = "run_events (replicate k2 WorkerStep) ?e2"
  let ?e4 = "speak b False ?e3"
  have e5: "e = run_events (replicate k3 WorkerStep) ?e4"
    unfolding e by (simp add: run_events_append)
  have s0: "serving init_engine" "rendered init_engine @ pending init_engine = []"
    "work init_engine = 0"
    by (simp_all add: init_engine_def serving_def pending_def work_def)
  from worker_steps_serving [OF s0(1), of k1] s0
  have s1: "serving ?e1" "rendered ?e1 @ pending ?e1 = []" "work ?e1 = 0" by simp_all
  from speak_serving [OF s1(1) a] s1
  have s2: "serving ?e2" "rendered ?e2 @ pending ?e2 = [a]" "work ?e2 = 2" by simp_all
  from worker_steps_serving [OF s2(1), of k2] s2
  have s3: "serving ?e3" "rendered ?e3 @ pending ?e3 = [a]" "work ?e3 \<le> 2" by simp_all
  from speak_serving [OF s3(1) b] s3
  have s4: "serving ?e4" "rendered ?e4 @ pending ?e4 = [a, b]" "work ?e4 \<le> 4" by simp_all
  from worker_steps_serving [OF s4(1), of k3] s4 e5
  have s5: "rendered e @ pending e = [a, b]" "work e \<le> 4 - k3" by simp_all
  from s5(1) starts_append [of "rendered e" "pending e"]
  have "starts (rendered e) [a, b]" by simp
  moreover have "rendered e = [a, b]" if "3 \<le> k3"
  proof -
    from that s5(2) have "work e \<le> 1" by simp
    from work_pending [OF this] s5(1) show ?thesis by simp
  qed
  ultimately show ?thesis by simp
qed

theorem speech_fifo_order_witness:
  "strip ''a'' \<noteq> [] \<and> strip ''b'' \<noteq> []
   \<and> rendered (run_events (replicate 1 WorkerStep @ [Speak ''a'' False]
        @ replicate 0 WorkerStep @ [Speak ''b'' False] @ replicate 3 WorkerStep) init_engine)
       = [''a'', ''b'']"
proof -
  have a: "strip ''a'' \<noteq> []" and b: "strip ''b'' \<noteq> []"
    by (simp_all add: strip_def isspace_def)
  show ?thesis
    using a b speech_fifo_order [OF a b refl, of 1 0 3] by simp
qed

lemma queue_join_returns_not_blocked:
  assumes inv: "\<And>s e n. I s e \<Longrightarrow> unfinished_tasks e \<noteq> 0 \<and> I s (step (s n) e)"
    and ret: "queue_join sched k e0 = Some r0"
  shows "\<not> I sched e0"
proof (rule queue_join.raw_induct [where P = "\<lambda>s n e r. \<not> I s e" and sched = sched
      and n = k and e = e0 and y = r0])
  show "queue_join sched k e0 = Some r0" by (rule ret)
next
  fix f s n e r
  assume IH: "\<And>s n e r. f s n e = Some r \<Longrightarrow> \<not> I s e"
    and eq: "(if unfinished_tasks e = 0 then Some (n, e)
              else f s (Suc n) (step (s n) e)) = Some r"
  show "\<not> I s e"
  proof
    assume "I s e"
    with inv have u: "unfinished_tasks e \<noteq> 0" and i: "I s (step (s n) e)" by blast+
    from eq u have "f s (Suc n) (step (s n) e) = Some r" by simp
    from IH [OF this] i show False by simp
  qed
qed

lemma queue_join_blocked:
  assumes "\<And>s e n. I s e \<Longrightarrow> unfinished_tasks e \<noteq> 0 \<and> I s (step (s n) e)" and "I sched e"
  shows "queue_join sched n e = None"
proof (cases "queue_join sched n e")
  case None
  then show ?thesis .
next
  case (Some r)
  from queue_join_returns_not_blocked [of I, OF assms(1) Some] assms(2)
  show ?thesis by simp
qed

text \<open>
  Claim C6, at inputs on which the code departs from it.  \<open>wait_until_done\<close> does not
  read its timeout: the result is the same for every timeout.  With a timeout of 3 and a text in flight whose playback takes ten
  units of time, the call returns after 11 steps, with \<open>True\<close>.  After \<open>shutdown\<close>, whose
  signal the worker takes off the queue without \<open>task_done()\<close>, the call never returns.
\<close>

theorem wait_until_done_ignores_timeout:
  "wait_until_done timeout sched e = wait_until_done None sched e
   \<and> wait_until_done (Some 3) slow_playback (run_events [Speak ''a long reply'' False, WorkerStep] init_engine)
     = Some (True, 11)
   \<and> wait_until_done (Some 3) worker_only (shutdown init_engine) = None"
proof -
  have 1: "wait_until_done (Some 3) slow_playback
       (run_events [Speak ''a long reply'' False, WorkerStep] init_engine) = Some (True, 11)"
    by (simp add: wait_until_done_def queue_join.simps slow_playback_def init_engine_def
        speak_def strip_def isspace_def put_def worker_step_def)
  define I where "I = (\<lambda>(s :: nat \<Rightarrow> event) (e :: speech_engine).
     (\<forall>n. s n = WorkerStep) \<and> unfinished_tasks e = 1 \<and> in_flight e = None \<and> \<not> is_running e)"
  have "I s e \<Longrightarrow> unfinished_tasks e \<noteq> 0 \<and> I s (step (s n) e)" for s e n
    by (simp add: I_def worker_step_def)
  moreover have "I worker_only (shutdown init_engine)"
    by (simp add: I_def worker_only_def shutdown_def init_engine_def put_def clear_queue_def)
  ultimately have "queue_join worker_only 0 (shutdown init_engine) = None"
    by (rule queue_join_blocked)
  then have 2: "wait_until_done (Some 3) worker_only (shutdown init_engine) = None"
    by (simp add: wait_until_done_def)
  have 0: "wait_until_done timeout sched e = wait_until_done None sched e"
    by (simp add: wait_until_done_def)
  from 0 1 2 show ?thesis by blast
qed

end
